theory Spec2Isabelle
  imports Main
begin

section \<open>The filevars registry and print dispatch (src/filevars.c)\<close>

text \<open>
  filevars maps variables of an external variable server to template files. At start-up
  \<open>SetupFileVar\<close> is called for every record of the configuration array and links one
  \<open>FileVar\<close> per record at the head of a list; afterwards \<open>main\<close> waits for signals and
  answers every print signal with \<open>PrintFileVar\<close>, inside a print session of the server.

  The variable server, the JSON library, the template engine and the operating system are
  not part of the program. What they answer is an input of the model, and every call the
  program makes on them that has an effect is recorded, in order, in a list of events.
\<close>

subsection \<open>Data\<close>

text \<open>The three result codes the program returns.\<close>

datatype errno = EOK | ENOENT | EINVAL

text \<open>
  \<open>struct fileVar\<close>. The \<open>pNext\<close> link is the tail of the list that holds the entry.
  \<open>pFilename\<close> is the pointer \<open>strdup\<close> returned, \<open>None\<close> when it is \<open>NULL\<close>.
  The type of variable handles is declared by the server's headers; it is the parameter
  \<open>'h\<close>.
\<close>

record 'h FileVar =
  hVar :: 'h
  pFilename :: "string option"

text \<open>\<open>struct fileVarsState\<close>; \<open>pFileVars\<close> is the list, its head first.\<close>

record 'h FileVarsState =
  hVarServer :: nat
  verbose :: bool
  pFileName :: "string option"
  pFileVars :: "'h FileVar list"

text \<open>
  What the server's headers and the server itself contribute: the invalid handle, the
  number of the print signal, and the handle \<open>VAR_FindByName\<close> answers for a name
  (\<open>VAR_INVALID\<close> for a name it does not know).
\<close>

record 'h varserver =
  VAR_INVALID :: 'h
  SIG_VAR_PRINT :: int
  VAR_FindByName :: "string \<Rightarrow> 'h"

text \<open>
  The calls with an effect outside the program. \<open>open_RDONLY p r\<close> is \<open>open(p, O_RDONLY)\<close>
  answering \<open>r\<close>; \<open>TEMPLATE_FileToFile i out\<close> renders descriptor \<open>i\<close> into the output
  descriptor \<open>out\<close> and is the only call that writes to an output channel.
\<close>

datatype 'h event =
    VAR_Notify 'h
  | open_RDONLY "string option" int
  | TEMPLATE_FileToFile int int
  | close_fd int
  | VAR_OpenPrintSession int
  | VAR_ClosePrintSession int int

text \<open>
  A configuration record is a JSON object with string attributes; \<open>JSON_Find\<close> answers
  the string of an attribute, \<open>None\<close> standing for a \<open>NULL\<close> result or a \<open>NULL\<close> string.
\<close>

type_synonym JNode = "(string \<times> string) list"

definition JSON_Find :: "JNode \<Rightarrow> string \<Rightarrow> string option" where
  "JSON_Find pNode key = map_of pNode key"

text \<open>Whether the two allocations of one \<open>SetupFileVar\<close> call succeed.\<close>

record alloc =
  malloc_ok :: bool
  strdup_ok :: bool

subsection \<open>SetupFileVar\<close>

text \<open>
  The callback takes the state through a pointer, \<open>None\<close> for \<open>NULL\<close>, and answers its
  result code, the state it leaves behind and the events it caused.
\<close>

definition SetupFileVar ::
  "'h varserver \<Rightarrow> alloc \<Rightarrow> JNode \<Rightarrow> 'h FileVarsState option
     \<Rightarrow> errno \<times> 'h FileVarsState option \<times> 'h event list" where
  "SetupFileVar vs al pNode arg =
     (case arg of
        None \<Rightarrow> (EINVAL, None, [])
      | Some pState \<Rightarrow>
          (case (JSON_Find pNode ''var'', JSON_Find pNode ''file'') of
             (Some varname, Some filename) \<Rightarrow>
               if malloc_ok al then
                 let pFilevar = \<lparr> hVar = VAR_FindByName vs varname,
                                  pFilename = (if strdup_ok al then Some filename else None) \<rparr>
                 in (EOK,
                     Some (pState \<lparr> pFileVars := pFilevar # pFileVars pState \<rparr>),
                     [VAR_Notify (hVar pFilevar)])
               else (EINVAL, Some pState, [])
           | _ \<Rightarrow> (EINVAL, Some pState, [])))"

text \<open>
  \<open>JSON_Iterate\<close> belongs to the JSON library. It calls the callback on the records in
  their order; whether it goes on after a callback that did not answer \<open>EOK\<close> is the
  parameter \<open>stop\<close>, so that nothing below depends on it. Each record comes with the
  outcome of the allocations of its call.
\<close>

fun JSON_Iterate ::
  "bool \<Rightarrow> ('n \<Rightarrow> 'a \<Rightarrow> errno \<times> 'a \<times> 'e list) \<Rightarrow> 'n list \<Rightarrow> 'a \<Rightarrow> 'a \<times> 'e list" where
  "JSON_Iterate stop fn [] arg = (arg, [])"
| "JSON_Iterate stop fn (n # ns) arg =
     (case fn n arg of
        (rc, arg', ev) \<Rightarrow>
          if stop \<and> rc \<noteq> EOK then (arg', ev)
          else (case JSON_Iterate stop fn ns arg' of
                  (arg'', ev') \<Rightarrow> (arg'', ev @ ev')))"

subsection \<open>PrintFileVar\<close>

text \<open>
  The result of one call: the code returned, the number of list entries whose handle the
  loop compared, and the events.
\<close>

record 'h printed =
  rc :: errno
  scanned :: nat
  io :: "'h event list"

text \<open>
  The \<open>while\<close> loop, entered with \<open>result = ENOENT\<close>. \<open>opn\<close> is what \<open>open\<close> answers
  for a path at the time of the call.
\<close>

fun scan :: "(string option \<Rightarrow> int) \<Rightarrow> 'h \<Rightarrow> int \<Rightarrow> 'h FileVar list \<Rightarrow> 'h printed" where
  "scan opn h fd [] = \<lparr> rc = ENOENT, scanned = 0, io = [] \<rparr>"
| "scan opn h fd (pFileVar # pNext) =
     (if hVar pFileVar = h then
        (let fd_in = opn (pFilename pFileVar)
         in \<lparr> rc = EOK, scanned = 1,
              io = open_RDONLY (pFilename pFileVar) fd_in #
                   (if fd_in > 0 then [TEMPLATE_FileToFile fd_in fd, close_fd fd_in] else []) \<rparr>)
      else (let r = scan opn h fd pNext in r \<lparr> scanned := Suc (scanned r) \<rparr>))"

definition PrintFileVar ::
  "'h varserver \<Rightarrow> (string option \<Rightarrow> int) \<Rightarrow> 'h FileVarsState option \<Rightarrow> 'h \<Rightarrow> int
     \<Rightarrow> 'h printed" where
  "PrintFileVar vs opn pState h fd =
     (case pState of
        None \<Rightarrow> \<lparr> rc = EINVAL, scanned = 0, io = [] \<rparr>
      | Some st \<Rightarrow>
          if h \<noteq> VAR_INVALID vs then scan opn h fd (pFileVars st)
          else \<lparr> rc = EINVAL, scanned = 0, io = [] \<rparr>)"

subsection \<open>main\<close>

text \<open>
  One return of \<open>VARSERVER_WaitSignal\<close> and what the environment answers during the
  iteration it starts: the signal and its value, the handle and the output descriptor that
  \<open>VAR_OpenPrintSession\<close> leaves in \<open>hVar\<close> and \<open>fd\<close>, and what \<open>open\<close> answers.
\<close>

record 'h wakeup =
  sig :: int
  sigval :: int
  session_hVar :: 'h
  session_fd :: int
  open_result :: "string option \<Rightarrow> int"

text \<open>The body of the \<open>while( 1 )\<close> loop. The result of \<open>PrintFileVar\<close> is dropped.\<close>

definition iteration :: "'h varserver \<Rightarrow> 'h FileVarsState \<Rightarrow> 'h wakeup \<Rightarrow> 'h event list" where
  "iteration vs st w =
     (if sig w = SIG_VAR_PRINT vs then
        VAR_OpenPrintSession (sigval w) #
        io (PrintFileVar vs (open_result w) (Some st) (session_hVar w) (session_fd w)) @
        [VAR_ClosePrintSession (sigval w) (session_fd w)]
      else [])"

text \<open>
  The loop never returns; its behaviour is the list of events it causes on every finite
  sequence of wake-ups. The body does not change the state.
\<close>

fun dispatch_loop :: "'h varserver \<Rightarrow> 'h FileVarsState \<Rightarrow> 'h wakeup list \<Rightarrow> 'h event list" where
  "dispatch_loop vs st [] = []"
| "dispatch_loop vs st (w # ws) = iteration vs st w @ dispatch_loop vs st ws"

text \<open>The state after \<open>memset\<close>, \<open>ProcessOptions\<close> and \<open>VARSERVER_Open\<close>.\<close>

definition initial_state :: "nat \<Rightarrow> bool \<Rightarrow> string option \<Rightarrow> 'h FileVarsState" where
  "initial_state srv v f = \<lparr> hVarServer = srv, verbose = v, pFileName = f, pFileVars = [] \<rparr>"

text \<open>The registration pass of \<open>main\<close> over the configuration array.\<close>

definition registration ::
  "'h varserver \<Rightarrow> bool \<Rightarrow> (alloc \<times> JNode) list \<Rightarrow> 'h FileVarsState
     \<Rightarrow> 'h FileVarsState option \<times> 'h event list" where
  "registration vs stop cfg st =
     JSON_Iterate stop (\<lambda>(al, pNode). SetupFileVar vs al pNode) cfg (Some st)"

subsection \<open>Auxiliary notions for the statements\<close>

text \<open>
  The entry \<open>SetupFileVar\<close> links for a record, \<open>None\<close> for a record it refuses
  (\<open>SetupFileVar_entry_of\<close> below relates the two).
\<close>

definition entry_of :: "'h varserver \<Rightarrow> alloc \<times> JNode \<Rightarrow> 'h FileVar option" where
  "entry_of vs r =
     (case (JSON_Find (snd r) ''var'', JSON_Find (snd r) ''file'') of
        (Some varname, Some filename) \<Rightarrow>
          if malloc_ok (fst r) then
            Some \<lparr> hVar = VAR_FindByName vs varname,
                   pFilename = (if strdup_ok (fst r) then Some filename else None) \<rparr>
          else None
      | _ \<Rightarrow> None)"

text \<open>
  The records \<open>SetupFileVar\<close> accepts: both attributes are there and \<open>malloc\<close> succeeds
  (\<open>SetupFileVar_EOK_iff\<close> below).
\<close>

definition accepted :: "alloc \<times> JNode \<Rightarrow> bool" where
  "accepted r \<longleftrightarrow>
     JSON_Find (snd r) ''var'' \<noteq> None \<and> JSON_Find (snd r) ''file'' \<noteq> None \<and> malloc_ok (fst r)"

text \<open>The entries a registration pass links, the oldest first.\<close>

fun linked :: "'h varserver \<Rightarrow> bool \<Rightarrow> (alloc \<times> JNode) list \<Rightarrow> 'h FileVar list" where
  "linked vs stop [] = []"
| "linked vs stop (r # rs) =
     (case entry_of vs r of
        None \<Rightarrow> if stop then [] else linked vs stop rs
      | Some e \<Rightarrow> e # linked vs stop rs)"

text \<open>The event that releases a print session.\<close>

fun session_release :: "'h event \<Rightarrow> bool" where
  "session_release (VAR_ClosePrintSession sv fd) = True"
| "session_release e = False"

text \<open>The event that writes to an output channel.\<close>

fun delivers :: "'h event \<Rightarrow> bool" where
  "delivers (TEMPLATE_FileToFile i out) = True"
| "delivers e = False"

text \<open>
  The descriptors a run of events opened (\<open>open\<close> answers a descriptor, which is not
  negative, or \<open>-1\<close>) and the descriptors it closed, in order.
\<close>

fun opened :: "'h event list \<Rightarrow> int list" where
  "opened [] = []"
| "opened (open_RDONLY p r # es) = (if r \<ge> 0 then r # opened es else opened es)"
| "opened (e # es) = opened es"

fun closed :: "'h event list \<Rightarrow> int list" where
  "closed [] = []"
| "closed (close_fd r # es) = r # closed es"
| "closed (e # es) = closed es"

subsection \<open>A concrete configuration\<close>

text \<open>
  A server that knows the variables \<open>A\<close> and \<open>B\<close> and an alias of \<open>A\<close>, with handle 0
  as the invalid handle, and a file system that holds three of the templates.
\<close>

definition example_names :: "string \<Rightarrow> nat" where
  "example_names n =
     (if n = ''A'' then 1 else if n = ''B'' then 2 else if n = ''A_alias'' then 1 else 0)"

definition example_server :: "nat varserver" where
  "example_server = \<lparr> VAR_INVALID = 0, SIG_VAR_PRINT = 40, VAR_FindByName = example_names \<rparr>"

definition example_files :: "string option \<Rightarrow> int" where
  "example_files p =
     (if p = Some ''/tmp/a.tpl'' then 7 else if p = Some ''/tmp/b.tpl'' then 8
      else if p = Some ''/tmp/a2.tpl'' then 9 else - 1)"

definition descriptor_zero :: "string option \<Rightarrow> int" where
  "descriptor_zero p = 0"

definition allocated :: alloc where
  "allocated = \<lparr> malloc_ok = True, strdup_ok = True \<rparr>"

definition no_memory :: alloc where
  "no_memory = \<lparr> malloc_ok = False, strdup_ok = False \<rparr>"

definition node_A :: JNode where
  "node_A = [(''var'', ''A''), (''file'', ''/tmp/a.tpl'')]"

definition node_A2 :: JNode where
  "node_A2 = [(''var'', ''A''), (''file'', ''/tmp/a2.tpl'')]"

definition node_alias :: JNode where
  "node_alias = [(''var'', ''A_alias''), (''file'', ''/tmp/b.tpl'')]"

definition node_B :: JNode where
  "node_B = [(''var'', ''B''), (''file'', ''/tmp/b.tpl'')]"

definition node_unknown :: JNode where
  "node_unknown = [(''var'', ''C''), (''file'', ''/tmp/c.tpl'')]"

definition node_nofile :: JNode where
  "node_nofile = [(''var'', ''A'')]"

definition example_state :: "nat FileVarsState" where
  "example_state = initial_state 1 False (Some ''filevars.json'')"

definition entry_A :: "nat FileVar" where
  "entry_A = \<lparr> hVar = 1, pFilename = Some ''/tmp/a.tpl'' \<rparr>"

definition entry_B :: "nat FileVar" where
  "entry_B = \<lparr> hVar = 2, pFilename = Some ''/tmp/b.tpl'' \<rparr>"

definition entry_A2 :: "nat FileVar" where
  "entry_A2 = \<lparr> hVar = 1, pFilename = Some ''/tmp/a2.tpl'' \<rparr>"

definition entry_alias :: "nat FileVar" where
  "entry_alias = \<lparr> hVar = 1, pFilename = Some ''/tmp/b.tpl'' \<rparr>"

definition entry_unknown :: "nat FileVar" where
  "entry_unknown = \<lparr> hVar = 0, pFilename = Some ''/tmp/c.tpl'' \<rparr>"

definition tagged_state :: "nat FileVarsState" where
  "tagged_state = example_state \<lparr> pFileVars := [entry_B, entry_unknown, entry_A] \<rparr>"

definition twice_state :: "nat FileVarsState" where
  "twice_state = example_state \<lparr> pFileVars := [entry_A2, entry_B, entry_A] \<rparr>"

definition alias_state :: "nat FileVarsState" where
  "alias_state = example_state \<lparr> pFileVars := [entry_unknown, entry_alias, entry_A] \<rparr>"

definition registered_state :: "nat FileVarsState" where
  "registered_state = example_state \<lparr> pFileVars := [entry_B, entry_A] \<rparr>"

definition no_files :: "string option \<Rightarrow> int" where
  "no_files p = - 1"

definition print_request :: "(string option \<Rightarrow> int) \<Rightarrow> nat \<Rightarrow> int \<Rightarrow> nat wakeup" where
  "print_request opn h sv =
     \<lparr> sig = 40, sigval = sv, session_hVar = h, session_fd = 5, open_result = opn \<rparr>"

section \<open>Properties\<close>

subsection \<open>The functions in closed form\<close>

lemma SetupFileVar_entry_of:
  "SetupFileVar vs al pNode (Some st) =
     (case entry_of vs (al, pNode) of
        None \<Rightarrow> (EINVAL, Some st, [])
      | Some e \<Rightarrow> (EOK, Some (st \<lparr> pFileVars := e # pFileVars st \<rparr>), [VAR_Notify (hVar e)]))"
  by (simp add: SetupFileVar_def entry_of_def Let_def split: option.splits)

lemma registration_Nil: "registration vs stop [] st = (Some st, [])"
  by (simp add: registration_def)

lemma registration_Cons:
  "registration vs stop (r # rs) st =
     (case entry_of vs r of
        None \<Rightarrow> if stop then (Some st, []) else registration vs stop rs st
      | Some e \<Rightarrow>
          (case registration vs stop rs (st \<lparr> pFileVars := e # pFileVars st \<rparr>) of
             (st', ev) \<Rightarrow> (st', VAR_Notify (hVar e) # ev)))"
  by (cases r) (simp add: registration_def SetupFileVar_entry_of split: option.splits prod.splits)

lemma registration_linked:
  "registration vs stop cfg st =
     (Some (st \<lparr> pFileVars := rev (linked vs stop cfg) @ pFileVars st \<rparr>),
      map (\<lambda>e. VAR_Notify (hVar e)) (linked vs stop cfg))"
proof (induction cfg arbitrary: st)
  case Nil
  show ?case by (simp add: registration_Nil)
next
  case (Cons r rs)
  show ?case
  proof (cases "entry_of vs r")
    case None
    then show ?thesis using Cons.IH [of st]
      by (cases stop) (simp_all add: registration_Cons)
  next
    case (Some e)
    then show ?thesis by (simp add: registration_Cons Cons.IH)
  qed
qed

lemma SetupFileVar_EOK_iff:
  "fst (SetupFileVar vs al pNode (Some st)) = EOK \<longleftrightarrow> accepted (al, pNode)"
  by (auto simp: SetupFileVar_def accepted_def Let_def split: option.splits)

lemma entry_of_None_iff: "entry_of vs r = None \<longleftrightarrow> \<not> accepted r"
  by (auto simp: entry_of_def accepted_def split: option.splits)

lemma entry_of_SomeD:
  assumes "entry_of vs r = Some e"
  shows "\<exists>varname filename.
           JSON_Find (snd r) ''var'' = Some varname \<and> JSON_Find (snd r) ''file'' = Some filename \<and>
           malloc_ok (fst r) \<and>
           e = \<lparr> hVar = VAR_FindByName vs varname,
                 pFilename = (if strdup_ok (fst r) then Some filename else None) \<rparr>"
  using assms by (auto simp: entry_of_def split: option.splits if_splits)

lemma linked_subset:
  "e \<in> set (linked vs stop cfg) \<Longrightarrow> \<exists>r \<in> set cfg. entry_of vs r = Some e"
  by (induction cfg) (auto split: option.splits if_splits)

lemma linked_append:
  "linked vs stop (xs @ ys) =
     linked vs stop xs @
     (if stop \<and> (\<exists>r \<in> set xs. entry_of vs r = None) then [] else linked vs stop ys)"
proof (induction xs)
  case Nil
  show ?case by simp
next
  case (Cons x xs)
  show ?case
  proof (cases "entry_of vs x")
    case None
    then show ?thesis using Cons.IH by (cases stop) simp_all
  next
    case (Some e)
    then show ?thesis using Cons.IH by simp
  qed
qed

lemma find_append_iff:
  "find P (xs @ ys) = (case find P xs of None \<Rightarrow> find P ys | Some x \<Rightarrow> Some x)"
  by (induction xs) simp_all

lemma find_rev_none:
  "(\<forall>x \<in> set xs. \<not> P x) \<Longrightarrow> find P (rev xs @ ys) = find P ys"
proof -
  assume "\<forall>x \<in> set xs. \<not> P x"
  then have "find P (rev xs) = None"
    by (simp add: find_None_iff)
  then show ?thesis
    by (simp add: find_append_iff)
qed

lemma find_filter_other:
  "(\<And>x. P x \<Longrightarrow> Q x) \<Longrightarrow> find P (filter Q xs) = find P xs"
  by (induction xs) auto

lemma scan_find:
  "scan opn h fd fvs =
     (case find (\<lambda>p. hVar p = h) fvs of
        None \<Rightarrow> \<lparr> rc = ENOENT, scanned = length fvs, io = [] \<rparr>
      | Some p \<Rightarrow>
          \<lparr> rc = EOK,
            scanned = Suc (length (takeWhile (\<lambda>p. hVar p \<noteq> h) fvs)),
            io = open_RDONLY (pFilename p) (opn (pFilename p)) #
                 (if opn (pFilename p) > 0
                  then [TEMPLATE_FileToFile (opn (pFilename p)) fd, close_fd (opn (pFilename p))]
                  else []) \<rparr>)"
  by (induction fvs) (auto simp: Let_def split: option.splits)

lemma registry_linked:
  assumes "registration vs stop cfg st0 = (Some st, ev)"
  shows "pFileVars st = rev (linked vs stop cfg) @ pFileVars st0"
    and "ev = map (\<lambda>e. VAR_Notify (hVar e)) (linked vs stop cfg)"
  using assms by (auto simp: registration_linked)

lemma scan_matched:
  assumes "rc (scan opn h fd fvs) = EOK"
  shows "scanned (scan opn h fd fvs) - 1 < length fvs \<and>
         hVar (fvs ! (scanned (scan opn h fd fvs) - 1)) = h"
  using assms
proof (induction fvs)
  case Nil
  then show ?case by simp
next
  case (Cons p ps)
  show ?case
  proof (cases "hVar p = h")
    case True
    then show ?thesis by (simp add: Let_def)
  next
    case False
    with Cons.prems have ok: "rc (scan opn h fd ps) = EOK"
      by (simp add: Let_def)
    from Cons.IH [OF ok] have "scanned (scan opn h fd ps) - 1 < length ps"
      and "hVar (ps ! (scanned (scan opn h fd ps) - 1)) = h" by simp_all
    moreover from ok have "scanned (scan opn h fd ps) > 0"
      by (cases ps) (auto simp: scan_find split: option.splits)
    ultimately show ?thesis using False
      by (simp add: Let_def)
  qed
qed

lemma find_removeAll:
  "\<not> P p \<Longrightarrow> find P (removeAll p xs) = find P xs"
  by (induction xs) auto

lemma scan_rc_io_find:
  "find (\<lambda>p. hVar p = h) xs = find (\<lambda>p. hVar p = h) ys \<Longrightarrow>
     rc (scan opn h fd xs) = rc (scan opn h fd ys) \<and> io (scan opn h fd xs) = io (scan opn h fd ys)"
  by (simp add: scan_find split: option.splits)

lemma linked_without_tagged:
  assumes "entry_of vs r = Some e" and "hVar e = bad"
  shows "filter (\<lambda>p. hVar p \<noteq> bad) (linked vs stop (pre @ r # post)) =
         filter (\<lambda>p. hVar p \<noteq> bad) (linked vs stop (pre @ post))"
proof (induction pre)
  case Nil
  from assms show ?case by simp
next
  case (Cons x xs)
  show ?case
  proof (cases "entry_of vs x")
    case None
    then show ?thesis using Cons.IH by (cases stop) simp_all
  next
    case (Some e')
    then show ?thesis using Cons.IH by simp
  qed
qed

lemma PrintFileVar_valid_entries:
  assumes "filter (\<lambda>p. hVar p \<noteq> VAR_INVALID vs) (pFileVars st) =
           filter (\<lambda>p. hVar p \<noteq> VAR_INVALID vs) (pFileVars st')"
  shows "rc (PrintFileVar vs opn (Some st) h fd) = rc (PrintFileVar vs opn (Some st') h fd) \<and>
         io (PrintFileVar vs opn (Some st) h fd) = io (PrintFileVar vs opn (Some st') h fd)"
proof (cases "h = VAR_INVALID vs")
  case True
  then show ?thesis by (simp add: PrintFileVar_def)
next
  case False
  then have "find (\<lambda>p. hVar p = h) (filter (\<lambda>p. hVar p \<noteq> VAR_INVALID vs) xs) =
      find (\<lambda>p. hVar p = h) xs" for xs :: "'a FileVar list"
    by (intro find_filter_other) auto
  from this [of "pFileVars st"] this [of "pFileVars st'"] assms
  have "find (\<lambda>p. hVar p = h) (pFileVars st) = find (\<lambda>p. hVar p = h) (pFileVars st')"
    by simp
  from scan_rc_io_find [OF this] False show ?thesis
    by (simp add: PrintFileVar_def)
qed

lemma lookup_registered:
  assumes reg: "registration vs stop (pre @ r # post) st0 = (Some st, ev)"
    and reach: "stop \<longrightarrow> (\<forall>x \<in> set pre. accepted x)"
    and e: "entry_of vs r = Some e"
    and later: "\<forall>x \<in> set post. \<forall>e'. entry_of vs x = Some e' \<longrightarrow> hVar e' \<noteq> hVar e"
  shows "find (\<lambda>p. hVar p = hVar e) (pFileVars st) = Some e"
proof -
  from reach have "linked vs stop (pre @ r # post) = linked vs stop pre @ e # linked vs stop post"
    using e by (auto simp: linked_append entry_of_None_iff)
  with reg have "pFileVars st =
      rev (linked vs stop post) @ e # rev (linked vs stop pre) @ pFileVars st0"
    by (simp add: registry_linked(1))
  moreover from later have "\<forall>x \<in> set (linked vs stop post). \<not> hVar x = hVar e"
    using linked_subset [of _ vs stop post] by blast
  ultimately show ?thesis
    by (simp add: find_rev_none)
qed

lemma PrintFileVar_found:
  assumes "h \<noteq> VAR_INVALID vs" and "find (\<lambda>p. hVar p = h) (pFileVars st) = Some e"
  shows "rc (PrintFileVar vs opn (Some st) h fd) = EOK \<and>
         io (PrintFileVar vs opn (Some st) h fd) =
           open_RDONLY (pFilename e) (opn (pFilename e)) #
           (if opn (pFilename e) > 0
            then [TEMPLATE_FileToFile (opn (pFilename e)) fd, close_fd (opn (pFilename e))]
            else [])"
  using assms by (simp add: PrintFileVar_def scan_find)

lemma scan_counts:
  "length (filter delivers (io (scan opn h fd xs))) \<le> 1
   \<and> length (opened (io (scan opn h fd xs))) \<le> 1
   \<and> scanned (scan opn h fd xs) \<le> Suc (length (takeWhile (\<lambda>p. hVar p \<noteq> h) xs))"
  by (induction xs) (simp_all add: Let_def)

lemma scan_closes:
  "\<forall>p \<in> set xs. opn (pFilename p) \<noteq> 0 \<Longrightarrow>
     opened (io (scan opn h fd xs)) = closed (io (scan opn h fd xs))"
  by (induction xs) (auto simp: Let_def)

lemma dispatch_loop_append:
  "dispatch_loop vs st (xs @ ys) = dispatch_loop vs st xs @ dispatch_loop vs st ys"
  by (induction xs) simp_all

lemma PrintFileVar_no_release:
  "filter session_release (io (PrintFileVar vs opn pState h fd)) = []"
  by (simp add: PrintFileVar_def scan_find split: option.splits)

lemma example_simps:
  "VAR_INVALID example_server = 0"
  "SIG_VAR_PRINT example_server = 40"
  "VAR_FindByName example_server = example_names"
  "pFileVars registered_state = [entry_B, entry_A]"
  "pFileVars example_state = []"
  "pFileVars tagged_state = [entry_B, entry_unknown, entry_A]"
  "pFileVars twice_state = [entry_A2, entry_B, entry_A]"
  "pFileVars alias_state = [entry_unknown, entry_alias, entry_A]"
  "hVar entry_A = 1" "pFilename entry_A = Some ''/tmp/a.tpl''"
  "hVar entry_B = 2" "pFilename entry_B = Some ''/tmp/b.tpl''"
  "hVar entry_A2 = 1" "pFilename entry_A2 = Some ''/tmp/a2.tpl''"
  "hVar entry_alias = 1" "pFilename entry_alias = Some ''/tmp/b.tpl''"
  "hVar entry_unknown = 0" "pFilename entry_unknown = Some ''/tmp/c.tpl''"
  "sig (print_request opn h sv) = 40" "sigval (print_request opn h sv) = sv"
  "session_hVar (print_request opn h sv) = h" "session_fd (print_request opn h sv) = 5"
  "open_result (print_request opn h sv) = opn"
  by (simp_all add: example_server_def registered_state_def tagged_state_def twice_state_def
      alias_state_def example_state_def initial_state_def entry_A_def entry_B_def entry_A2_def
      entry_alias_def entry_unknown_def print_request_def)

lemma example_nodes:
  "entry_of example_server (allocated, node_A) = Some entry_A"
  "entry_of example_server (allocated, node_B) = Some entry_B"
  "entry_of example_server (allocated, node_A2) = Some entry_A2"
  "entry_of example_server (allocated, node_alias) = Some entry_alias"
  "entry_of example_server (allocated, node_unknown) = Some entry_unknown"
  by (simp_all add: entry_of_def JSON_Find_def allocated_def example_server_def example_names_def
      node_A_def node_B_def node_A2_def node_alias_def node_unknown_def
      entry_A_def entry_B_def entry_A2_def entry_alias_def entry_unknown_def)

lemma example_registrations:
  "registration example_server stop [(allocated, node_A), (allocated, node_B)] example_state =
     (Some registered_state, [VAR_Notify 1, VAR_Notify 2])"
  "registration example_server stop
     [(allocated, node_A), (allocated, node_unknown), (allocated, node_B)] example_state =
     (Some tagged_state, [VAR_Notify 1, VAR_Notify 0, VAR_Notify 2])"
  "registration example_server stop
     [(allocated, node_A), (allocated, node_B), (allocated, node_A2)] example_state =
     (Some twice_state, [VAR_Notify 1, VAR_Notify 2, VAR_Notify 1])"
  "registration example_server stop
     [(allocated, node_A), (allocated, node_alias), (allocated, node_unknown)] example_state =
     (Some alias_state, [VAR_Notify 1, VAR_Notify 1, VAR_Notify 0])"
  by (simp_all add: registration_Cons registration_Nil example_nodes example_simps
      registered_state_def tagged_state_def twice_state_def alias_state_def)

subsection \<open>Invalid arguments of PrintFileVar\<close>

text \<open>
  C9. When the state pointer is \<open>NULL\<close> or the handle asked for is \<open>VAR_INVALID\<close>,
  \<open>PrintFileVar\<close> returns \<open>EINVAL\<close>, compares the handle of no list entry and causes no
  event: it opens no file and nothing is written to the output descriptor. This holds
  whatever the list contains, also when it holds an entry whose handle is \<open>VAR_INVALID\<close>.
\<close>

theorem PrintFileVar_invalid_arguments:
  assumes "pState = None \<or> h = VAR_INVALID vs"
  shows "PrintFileVar vs opn pState h fd = \<lparr> rc = EINVAL, scanned = 0, io = [] \<rparr>"
  using assms by (auto simp: PrintFileVar_def split: option.splits)

theorem PrintFileVar_invalid_arguments_witness:
  "PrintFileVar example_server example_files
     (Some (example_state \<lparr> pFileVars := [\<lparr> hVar = 0, pFilename = Some ''/tmp/a.tpl'' \<rparr>] \<rparr>)) 0 5
     = \<lparr> rc = EINVAL, scanned = 0, io = [] \<rparr>
   \<and> PrintFileVar example_server example_files None 1 5 = \<lparr> rc = EINVAL, scanned = 0, io = [] \<rparr>"
proof
  show "PrintFileVar example_server example_files
     (Some (example_state \<lparr> pFileVars := [\<lparr> hVar = 0, pFilename = Some ''/tmp/a.tpl'' \<rparr>] \<rparr>)) 0 5
     = \<lparr> rc = EINVAL, scanned = 0, io = [] \<rparr>"
    by (rule PrintFileVar_invalid_arguments) (simp add: example_simps)
  show "PrintFileVar example_server example_files None 1 5 = \<lparr> rc = EINVAL, scanned = 0, io = [] \<rparr>"
    by (rule PrintFileVar_invalid_arguments) simp
qed

subsection \<open>The session of a print signal\<close>

text \<open>
  C1. Whenever \<open>VARSERVER_WaitSignal\<close> yields the print signal, the iteration opens the
  print session, calls \<open>PrintFileVar\<close> and then closes the session of that signal value,
  as the last thing it does; \<open>PrintFileVar\<close> itself never closes a session, so the iteration
  releases exactly one. This holds for every state and every answer of the environment:
  whether the template was rendered, the file did not open or no entry has the handle.
  The loop then goes on with the following wake-ups.
\<close>

theorem session_released_exactly_once:
  assumes "sig w = SIG_VAR_PRINT vs"
  shows "dispatch_loop vs st (pre @ w # post) =
           dispatch_loop vs st pre @
           VAR_OpenPrintSession (sigval w) #
           io (PrintFileVar vs (open_result w) (Some st) (session_hVar w) (session_fd w)) @
           VAR_ClosePrintSession (sigval w) (session_fd w) # dispatch_loop vs st post
         \<and> filter session_release
              (io (PrintFileVar vs (open_result w) (Some st) (session_hVar w) (session_fd w))) = []
         \<and> filter session_release (iteration vs st w) =
              [VAR_ClosePrintSession (sigval w) (session_fd w)]"
  using assms
  by (simp add: dispatch_loop_append iteration_def PrintFileVar_no_release)

theorem session_released_exactly_once_witness:
  "sig (print_request example_files 3 101) = SIG_VAR_PRINT example_server \<and>
   dispatch_loop example_server registered_state
     ([print_request example_files 1 100] @ print_request example_files 3 101 #
      [print_request example_files 2 102]) =
     [VAR_OpenPrintSession 100, open_RDONLY (Some ''/tmp/a.tpl'') 7,
      TEMPLATE_FileToFile 7 5, close_fd 7, VAR_ClosePrintSession 100 5,
      VAR_OpenPrintSession 101, VAR_ClosePrintSession 101 5,
      VAR_OpenPrintSession 102, open_RDONLY (Some ''/tmp/b.tpl'') 8,
      TEMPLATE_FileToFile 8 5, close_fd 8, VAR_ClosePrintSession 102 5]"
proof -
  have print: "sig (print_request example_files 3 101) = SIG_VAR_PRINT example_server"
    by (simp add: example_simps)
  from session_released_exactly_once [OF print, of registered_state
      "[print_request example_files 1 100]" "[print_request example_files 2 102]"]
  show ?thesis using print
    by (simp add: iteration_def PrintFileVar_def example_simps example_files_def)
qed

subsection \<open>A handle without an entry\<close>

text \<open>
  C4. When no entry of the list has the handle asked for (and the handle is not
  \<open>VAR_INVALID\<close>), \<open>PrintFileVar\<close> walks the whole list, returns \<open>ENOENT\<close> and causes no
  event, so nothing is delivered. The iteration of \<open>main\<close> that made the call still closes
  the session it opened, and the loop goes on with the wake-ups that follow.
\<close>

theorem unregistered_handle_ENOENT:
  assumes "h \<noteq> VAR_INVALID vs"
    and "\<forall>p \<in> set (pFileVars st). hVar p \<noteq> h"
    and "sig w = SIG_VAR_PRINT vs"
    and "session_hVar w = h"
  shows "PrintFileVar vs opn (Some st) h fd =
           \<lparr> rc = ENOENT, scanned = length (pFileVars st), io = [] \<rparr>
         \<and> dispatch_loop vs st (pre @ w # post) =
             dispatch_loop vs st pre @
             [VAR_OpenPrintSession (sigval w), VAR_ClosePrintSession (sigval w) (session_fd w)] @
             dispatch_loop vs st post"
proof -
  from assms(2) have none: "find (\<lambda>p. hVar p = h) (pFileVars st) = None"
    by (simp add: find_None_iff)
  with assms(1) have call: "PrintFileVar vs opn' (Some st) h fd' =
      \<lparr> rc = ENOENT, scanned = length (pFileVars st), io = [] \<rparr>" for opn' fd'
    by (simp add: PrintFileVar_def scan_find)
  from assms(3,4) show ?thesis
    by (simp add: call dispatch_loop_append iteration_def)
qed

theorem unregistered_handle_ENOENT_witness:
  "PrintFileVar example_server example_files (Some registered_state) 3 5 =
     \<lparr> rc = ENOENT, scanned = 2, io = [] \<rparr>
   \<and> dispatch_loop example_server registered_state
       ([] @ print_request example_files 3 101 # [print_request example_files 1 100]) =
     [VAR_OpenPrintSession 101, VAR_ClosePrintSession 101 5,
      VAR_OpenPrintSession 100, open_RDONLY (Some ''/tmp/a.tpl'') 7,
      TEMPLATE_FileToFile 7 5, close_fd 7, VAR_ClosePrintSession 100 5]"
proof -
  have valid: "(3::nat) \<noteq> VAR_INVALID example_server"
    by (simp add: example_simps)
  have absent: "\<forall>p \<in> set (pFileVars registered_state). hVar p \<noteq> 3"
    by (simp add: example_simps)
  have print: "sig (print_request example_files 3 101) = SIG_VAR_PRINT example_server"
    by (simp add: example_simps)
  have same: "session_hVar (print_request example_files 3 101) = 3"
    by (simp add: example_simps)
  from unregistered_handle_ENOENT [OF valid absent print same, of example_files 5 "[]"
      "[print_request example_files 1 100]"]
  show ?thesis
    by (simp add: iteration_def PrintFileVar_def example_simps example_files_def)
qed

subsection \<open>A template that does not open\<close>

text \<open>
  C5. When the first entry with the handle asked for names a file that \<open>open\<close> cannot
  open (it answers a negative number), \<open>PrintFileVar\<close> calls neither the template engine
  nor \<open>close\<close>: the one event is the failed \<open>open\<close>, nothing is written to the output
  descriptor, and the result is \<open>EOK\<close> all the same. The iteration of \<open>main\<close> closes the
  session once and the loop goes on.
\<close>

theorem unopenable_file_renders_nothing:
  assumes "h \<noteq> VAR_INVALID vs"
    and "find (\<lambda>p. hVar p = h) (pFileVars st) = Some p"
    and "opn (pFilename p) < 0"
    and "sig w = SIG_VAR_PRINT vs"
    and "session_hVar w = h"
    and "open_result w = opn"
  shows "rc (PrintFileVar vs opn (Some st) h fd) = EOK
         \<and> io (PrintFileVar vs opn (Some st) h fd) =
             [open_RDONLY (pFilename p) (opn (pFilename p))]
         \<and> filter delivers (io (PrintFileVar vs opn (Some st) h fd)) = []
         \<and> dispatch_loop vs st (pre @ w # post) =
             dispatch_loop vs st pre @
             [VAR_OpenPrintSession (sigval w),
              open_RDONLY (pFilename p) (opn (pFilename p)),
              VAR_ClosePrintSession (sigval w) (session_fd w)] @
             dispatch_loop vs st post"
proof -
  from assms(1,2,3) have call: "PrintFileVar vs opn (Some st) h fd' =
      \<lparr> rc = EOK, scanned = Suc (length (takeWhile (\<lambda>p. hVar p \<noteq> h) (pFileVars st))),
        io = [open_RDONLY (pFilename p) (opn (pFilename p))] \<rparr>" for fd'
    by (simp add: PrintFileVar_def scan_find)
  from assms(4,5,6) show ?thesis
    by (simp add: call dispatch_loop_append iteration_def)
qed

theorem unopenable_file_renders_nothing_witness:
  "find (\<lambda>p. hVar p = 2) (pFileVars registered_state) = Some entry_B
   \<and> no_files (pFilename entry_B) < 0
   \<and> rc (PrintFileVar example_server no_files (Some registered_state) 2 5) = EOK
   \<and> io (PrintFileVar example_server no_files (Some registered_state) 2 5) =
       [open_RDONLY (Some ''/tmp/b.tpl'') (- 1)]
   \<and> dispatch_loop example_server registered_state
       ([] @ print_request no_files 2 101 # [print_request example_files 1 100]) =
     [VAR_OpenPrintSession 101, open_RDONLY (Some ''/tmp/b.tpl'') (- 1),
      VAR_ClosePrintSession 101 5,
      VAR_OpenPrintSession 100, open_RDONLY (Some ''/tmp/a.tpl'') 7,
      TEMPLATE_FileToFile 7 5, close_fd 7, VAR_ClosePrintSession 100 5]"
proof -
  have valid: "(2::nat) \<noteq> VAR_INVALID example_server"
    by (simp add: example_simps)
  have bound: "find (\<lambda>p. hVar p = 2) (pFileVars registered_state) = Some entry_B"
    by (simp add: example_simps)
  have fails: "no_files (pFilename entry_B) < 0"
    by (simp add: no_files_def)
  have print: "sig (print_request no_files 2 101) = SIG_VAR_PRINT example_server"
    by (simp add: example_simps)
  have same: "session_hVar (print_request no_files 2 101) = 2"
    by (simp add: example_simps)
  have opn: "open_result (print_request no_files 2 101) = no_files"
    by (simp add: example_simps)
  from unopenable_file_renders_nothing [OF valid bound fails print same opn, of 5 "[]"
      "[print_request example_files 1 100]"]
  show ?thesis using bound fails
    by (simp add: iteration_def PrintFileVar_def example_simps example_files_def no_files_def)
qed

subsection \<open>A record that SetupFileVar refuses\<close>

text \<open>
  C2, as the code has it. \<open>SetupFileVar\<close> refuses a record that lacks the attribute
  \<open>var\<close> or the attribute \<open>file\<close>, and a record for which \<open>malloc\<close> fails: it returns
  \<open>EINVAL\<close>, links no entry, leaves the state as it was and subscribes to nothing. The same
  is true of every call that does not return \<open>EOK\<close>. A name that the server does not know
  is not refused: the counterexample shows the entry linked under \<open>VAR_INVALID\<close> and the
  result \<open>EOK\<close>.
\<close>

theorem SetupFileVar_refusal_leaves_state:
  "(JSON_Find pNode ''var'' = None \<or> JSON_Find pNode ''file'' = None \<or> \<not> malloc_ok al
      \<longrightarrow> SetupFileVar vs al pNode arg = (EINVAL, arg, []))
   \<and> (fst (SetupFileVar vs al pNode arg) \<noteq> EOK
      \<longrightarrow> SetupFileVar vs al pNode arg = (EINVAL, arg, []))"
  by (auto simp: SetupFileVar_def Let_def split: option.splits)

theorem SetupFileVar_refusal_leaves_state_witness:
  "JSON_Find node_nofile ''file'' = None
   \<and> SetupFileVar example_server allocated node_nofile (Some registered_state) =
       (EINVAL, Some registered_state, [])
   \<and> \<not> malloc_ok no_memory
   \<and> SetupFileVar example_server no_memory node_A (Some registered_state) =
       (EINVAL, Some registered_state, [])"
proof -
  have missing: "JSON_Find node_nofile ''file'' = None"
    by (simp add: JSON_Find_def node_nofile_def)
  have failed: "\<not> malloc_ok no_memory"
    by (simp add: no_memory_def)
  from missing
    SetupFileVar_refusal_leaves_state [of node_nofile allocated example_server
      "Some registered_state", THEN conjunct1]
  have first: "SetupFileVar example_server allocated node_nofile (Some registered_state) =
       (EINVAL, Some registered_state, [])"
    by simp
  from failed
    SetupFileVar_refusal_leaves_state [of node_A no_memory example_server
      "Some registered_state", THEN conjunct1]
  have second: "SetupFileVar example_server no_memory node_A (Some registered_state) =
       (EINVAL, Some registered_state, [])"
    by simp
  from missing failed first second show ?thesis by simp
qed

theorem unresolved_name_is_registered:
  "VAR_FindByName example_server ''C'' = VAR_INVALID example_server
   \<and> JSON_Find node_unknown ''var'' = Some ''C''
   \<and> SetupFileVar example_server allocated node_unknown (Some example_state) =
       (EOK,
        Some (example_state \<lparr> pFileVars := [\<lparr> hVar = 0, pFilename = Some ''/tmp/c.tpl'' \<rparr>] \<rparr>),
        [VAR_Notify 0])"
  by (simp add: SetupFileVar_def JSON_Find_def node_unknown_def allocated_def example_simps
      example_names_def)

subsection \<open>The handles of the entries\<close>

text \<open>
  C3. After the registration pass of \<open>main\<close>, the handle of every entry of the list is what
  \<open>VAR_FindByName\<close> answered, at that time, for the name of a record of the configuration:
  a resolved handle, or \<open>VAR_INVALID\<close> when the name did not resolve. An entry that carries
  \<open>VAR_INVALID\<close> is never the entry at which the loop of \<open>PrintFileVar\<close> stops (the entry
  at position \<open>scanned - 1\<close> when the result is \<open>EOK\<close>), whatever handle is asked for, and
  removing it from the list changes neither the result nor the events of any call.
\<close>

theorem registry_entries_resolved_or_unmatched:
  assumes "registration vs stop cfg (initial_state srv v f) = (Some st, ev)"
    and "p \<in> set (pFileVars st)"
  shows "(\<exists>al pNode varname.
            (al, pNode) \<in> set cfg \<and> JSON_Find pNode ''var'' = Some varname \<and>
            hVar p = VAR_FindByName vs varname)
         \<and> (hVar p = VAR_INVALID vs \<longrightarrow>
              (rc (PrintFileVar vs opn (Some st) h fd) = EOK \<longrightarrow>
                 pFileVars st ! (scanned (PrintFileVar vs opn (Some st) h fd) - 1) \<noteq> p)
              \<and> rc (PrintFileVar vs opn (Some (st \<lparr> pFileVars := removeAll p (pFileVars st) \<rparr>)) h fd)
                  = rc (PrintFileVar vs opn (Some st) h fd)
              \<and> io (PrintFileVar vs opn (Some (st \<lparr> pFileVars := removeAll p (pFileVars st) \<rparr>)) h fd)
                  = io (PrintFileVar vs opn (Some st) h fd))"
proof -
  from assms(1) have reg: "pFileVars st = rev (linked vs stop cfg)"
    by (simp add: registry_linked(1) initial_state_def)
  with assms(2) obtain r where r: "r \<in> set cfg" "entry_of vs r = Some p"
    using linked_subset [of p vs stop cfg] by auto
  from entry_of_SomeD [OF r(2)] obtain varname where
    "JSON_Find (snd r) ''var'' = Some varname" "hVar p = VAR_FindByName vs varname"
    by auto
  moreover obtain al pNode where "r = (al, pNode)"
    by (cases r)
  ultimately have first: "\<exists>al pNode varname.
            (al, pNode) \<in> set cfg \<and> JSON_Find pNode ''var'' = Some varname \<and>
            hVar p = VAR_FindByName vs varname"
    using r(1) by auto
  have second: "pFileVars st ! (scanned (PrintFileVar vs opn (Some st) h fd) - 1) \<noteq> p"
    if "hVar p = VAR_INVALID vs" "rc (PrintFileVar vs opn (Some st) h fd) = EOK"
  proof -
    from that(2) have valid: "h \<noteq> VAR_INVALID vs"
      by (auto simp: PrintFileVar_def split: if_splits)
    with that(2) have "rc (scan opn h fd (pFileVars st)) = EOK"
      by (simp add: PrintFileVar_def)
    from scan_matched [OF this] valid that(1) show ?thesis
      by (auto simp: PrintFileVar_def)
  qed
  have third: "rc (PrintFileVar vs opn (Some (st \<lparr> pFileVars := removeAll p (pFileVars st) \<rparr>)) h fd)
                  = rc (PrintFileVar vs opn (Some st) h fd)
              \<and> io (PrintFileVar vs opn (Some (st \<lparr> pFileVars := removeAll p (pFileVars st) \<rparr>)) h fd)
                  = io (PrintFileVar vs opn (Some st) h fd)"
    if "hVar p = VAR_INVALID vs"
  proof (cases "h = VAR_INVALID vs")
    case True
    then show ?thesis by (simp add: PrintFileVar_def)
  next
    case False
    with that have "find (\<lambda>q. hVar q = h) (removeAll p (pFileVars st)) =
        find (\<lambda>q. hVar q = h) (pFileVars st)"
      by (intro find_removeAll) auto
    from scan_rc_io_find [OF this] False show ?thesis
      by (simp add: PrintFileVar_def)
  qed
  from first second third show ?thesis by blast
qed

theorem registry_entries_resolved_or_unmatched_witness:
  "registration example_server False
     [(allocated, node_A), (allocated, node_unknown), (allocated, node_B)]
     (initial_state 1 False (Some ''filevars.json'')) =
     (Some tagged_state, [VAR_Notify 1, VAR_Notify 0, VAR_Notify 2])
   \<and> entry_unknown \<in> set (pFileVars tagged_state)
   \<and> hVar entry_unknown = VAR_INVALID example_server
   \<and> rc (PrintFileVar example_server example_files (Some tagged_state) 2 5) = EOK
   \<and> pFileVars tagged_state !
       (scanned (PrintFileVar example_server example_files (Some tagged_state) 2 5) - 1)
       \<noteq> entry_unknown
   \<and> io (PrintFileVar example_server example_files
           (Some (tagged_state \<lparr> pFileVars := removeAll entry_unknown (pFileVars tagged_state) \<rparr>))
           2 5)
       = io (PrintFileVar example_server example_files (Some tagged_state) 2 5)"
proof -
  have reg: "registration example_server False
     [(allocated, node_A), (allocated, node_unknown), (allocated, node_B)]
     (initial_state 1 False (Some ''filevars.json'')) =
     (Some tagged_state, [VAR_Notify 1, VAR_Notify 0, VAR_Notify 2])"
    using example_registrations(2) [of False] by (simp add: example_state_def)
  have mem: "entry_unknown \<in> set (pFileVars tagged_state)"
    by (simp add: example_simps)
  have tag: "hVar entry_unknown = VAR_INVALID example_server"
    by (simp add: example_simps)
  have ok: "rc (PrintFileVar example_server example_files (Some tagged_state) 2 5) = EOK"
    by (simp add: PrintFileVar_def example_simps Let_def)
  from registry_entries_resolved_or_unmatched [OF reg mem, of example_files 2 5]
  show ?thesis using reg mem tag ok by simp
qed

subsection \<open>A name that does not resolve, in the registration pass\<close>

text \<open>
  C8, as the code has it. A record with both attributes whose name the server does not
  know is not skipped. \<open>SetupFileVar\<close> links an entry for it under \<open>VAR_INVALID\<close>, calls
  \<open>VAR_Notify\<close> for \<open>VAR_INVALID\<close> and returns \<open>EOK\<close>; so the record is not reported, and
  the pass goes on with the records that follow whether or not \<open>JSON_Iterate\<close> stops at a
  failing callback. When the pass reaches the record, the entry is in the list and the
  subscription among the events. The records around it are registered as they are without
  it: the pass over the configuration with the record and the pass over the configuration
  without it leave the same entries with a valid handle, in the same order, and make the
  same subscriptions for valid handles. No call of \<open>PrintFileVar\<close> matches the entry: every
  call has the same result and the same events after either pass.
\<close>

theorem unresolved_record_links_unmatched_entry:
  assumes name: "JSON_Find pNode ''var'' = Some varname"
    and path: "JSON_Find pNode ''file'' = Some filename"
    and mem: "malloc_ok al"
    and unresolved: "VAR_FindByName vs varname = VAR_INVALID vs"
    and tagged: "e = \<lparr> hVar = VAR_INVALID vs,
                       pFilename = (if strdup_ok al then Some filename else None) \<rparr>"
    and with_it: "registration vs stop (pre @ (al, pNode) # post) st0 = (Some st, ev)"
    and without: "registration vs stop (pre @ post) st0 = (Some st', ev')"
  shows "SetupFileVar vs al pNode (Some s) =
           (EOK, Some (s \<lparr> pFileVars := e # pFileVars s \<rparr>), [VAR_Notify (VAR_INVALID vs)])
         \<and> registration vs stop ((al, pNode) # post) s =
             (case registration vs stop post (s \<lparr> pFileVars := e # pFileVars s \<rparr>) of
                (s', e') \<Rightarrow> (s', VAR_Notify (VAR_INVALID vs) # e'))
         \<and> ((stop \<longrightarrow> (\<forall>r \<in> set pre. accepted r)) \<longrightarrow>
               e \<in> set (pFileVars st) \<and> VAR_Notify (VAR_INVALID vs) \<in> set ev)
         \<and> filter (\<lambda>p. hVar p \<noteq> VAR_INVALID vs) (pFileVars st) =
             filter (\<lambda>p. hVar p \<noteq> VAR_INVALID vs) (pFileVars st')
         \<and> filter (\<lambda>e. e \<noteq> VAR_Notify (VAR_INVALID vs)) ev =
             filter (\<lambda>e. e \<noteq> VAR_Notify (VAR_INVALID vs)) ev'
         \<and> rc (PrintFileVar vs opn (Some st) h fd) = rc (PrintFileVar vs opn (Some st') h fd)
         \<and> io (PrintFileVar vs opn (Some st) h fd) = io (PrintFileVar vs opn (Some st') h fd)"
proof -
  from name path mem unresolved tagged have e: "entry_of vs (al, pNode) = Some e"
    by (simp add: entry_of_def)
  from tagged have inv: "hVar e = VAR_INVALID vs"
    by simp
  from e inv have call: "SetupFileVar vs al pNode (Some s) =
      (EOK, Some (s \<lparr> pFileVars := e # pFileVars s \<rparr>), [VAR_Notify (VAR_INVALID vs)])"
    by (simp add: SetupFileVar_entry_of)
  from e inv have goes_on: "registration vs stop ((al, pNode) # post) s =
      (case registration vs stop post (s \<lparr> pFileVars := e # pFileVars s \<rparr>) of
         (s', e') \<Rightarrow> (s', VAR_Notify (VAR_INVALID vs) # e'))"
    by (simp add: registration_Cons)
  have same: "filter (\<lambda>p. hVar p \<noteq> VAR_INVALID vs) (linked vs stop (pre @ (al, pNode) # post)) =
      filter (\<lambda>p. hVar p \<noteq> VAR_INVALID vs) (linked vs stop (pre @ post))"
    by (rule linked_without_tagged [OF e inv])
  from with_it without have regs:
    "pFileVars st = rev (linked vs stop (pre @ (al, pNode) # post)) @ pFileVars st0"
    "pFileVars st' = rev (linked vs stop (pre @ post)) @ pFileVars st0"
    "ev = map (\<lambda>e. VAR_Notify (hVar e)) (linked vs stop (pre @ (al, pNode) # post))"
    "ev' = map (\<lambda>e. VAR_Notify (hVar e)) (linked vs stop (pre @ post))"
    by (simp_all add: registry_linked)
  have present: "e \<in> set (pFileVars st) \<and> VAR_Notify (VAR_INVALID vs) \<in> set ev"
    if reach: "stop \<longrightarrow> (\<forall>r \<in> set pre. accepted r)"
  proof -
    from reach e
    have "linked vs stop (pre @ (al, pNode) # post) =
        linked vs stop pre @ e # linked vs stop post"
      by (auto simp: linked_append entry_of_None_iff)
    with inv show ?thesis
      by (simp add: regs)
  qed
  have entries: "filter (\<lambda>p. hVar p \<noteq> VAR_INVALID vs) (pFileVars st) =
      filter (\<lambda>p. hVar p \<noteq> VAR_INVALID vs) (pFileVars st')"
    using same by (simp add: regs rev_filter [symmetric])
  have "filter (\<lambda>e. e \<noteq> VAR_Notify (VAR_INVALID vs)) (map (\<lambda>e. VAR_Notify (hVar e)) xs) =
      map (\<lambda>e. VAR_Notify (hVar e)) (filter (\<lambda>p. hVar p \<noteq> VAR_INVALID vs) xs)"
    for xs :: "'a FileVar list"
    by (induction xs) simp_all
  with same have events: "filter (\<lambda>e. e \<noteq> VAR_Notify (VAR_INVALID vs)) ev =
      filter (\<lambda>e. e \<noteq> VAR_Notify (VAR_INVALID vs)) ev'"
    by (simp add: regs)
  from call goes_on present entries events PrintFileVar_valid_entries [OF entries, of opn h fd]
  show ?thesis by blast
qed

theorem unresolved_record_links_unmatched_entry_witness:
  "VAR_FindByName example_server ''C'' = VAR_INVALID example_server
   \<and> registration example_server True
       ([(allocated, node_A)] @ (allocated, node_unknown) # [(allocated, node_B)]) example_state =
       (Some tagged_state, [VAR_Notify 1, VAR_Notify 0, VAR_Notify 2])
   \<and> registration example_server True ([(allocated, node_A)] @ [(allocated, node_B)])
       example_state = (Some registered_state, [VAR_Notify 1, VAR_Notify 2])
   \<and> SetupFileVar example_server allocated node_unknown (Some example_state) =
       (EOK, Some (example_state \<lparr> pFileVars := entry_unknown # pFileVars example_state \<rparr>),
        [VAR_Notify (VAR_INVALID example_server)])
   \<and> entry_unknown \<in> set (pFileVars tagged_state)
   \<and> rc (PrintFileVar example_server example_files (Some tagged_state) 2 5) =
       rc (PrintFileVar example_server example_files (Some registered_state) 2 5)
   \<and> io (PrintFileVar example_server example_files (Some tagged_state) 2 5) =
       io (PrintFileVar example_server example_files (Some registered_state) 2 5)"
proof -
  have name: "JSON_Find node_unknown ''var'' = Some ''C''"
    and path: "JSON_Find node_unknown ''file'' = Some ''/tmp/c.tpl''"
    by (simp_all add: JSON_Find_def node_unknown_def)
  have mem: "malloc_ok allocated"
    by (simp add: allocated_def)
  have unresolved: "VAR_FindByName example_server ''C'' = VAR_INVALID example_server"
    by (simp add: example_simps example_names_def)
  have tagged: "entry_unknown = \<lparr> hVar = VAR_INVALID example_server,
      pFilename = (if strdup_ok allocated then Some ''/tmp/c.tpl'' else None) \<rparr>"
    by (simp add: entry_unknown_def allocated_def example_simps)
  have with_it: "registration example_server True
       ([(allocated, node_A)] @ (allocated, node_unknown) # [(allocated, node_B)]) example_state =
       (Some tagged_state, [VAR_Notify 1, VAR_Notify 0, VAR_Notify 2])"
    using example_registrations(2) [of True] by simp
  have without: "registration example_server True ([(allocated, node_A)] @ [(allocated, node_B)])
       example_state = (Some registered_state, [VAR_Notify 1, VAR_Notify 2])"
    using example_registrations(1) [of True] by simp
  have reach: "True \<longrightarrow> (\<forall>r \<in> set [(allocated, node_A)]. accepted r)"
    by (simp add: accepted_def JSON_Find_def node_A_def allocated_def)
  from unresolved_record_links_unmatched_entry [OF name path mem unresolved tagged with_it
      without, of example_state example_files 2 5]
  show ?thesis using unresolved with_it without reach by simp
qed

text \<open>
  The pass over \<open>A\<close>, the unknown name \<open>C\<close> and \<open>B\<close> reports nothing and registers \<open>B\<close>,
  but it does not skip \<open>C\<close>: it leaves three entries, the one of \<open>C\<close> under handle 0, and
  three subscriptions, where the pass over \<open>A\<close> and \<open>B\<close> alone leaves two of each.
\<close>

theorem unresolved_record_is_not_skipped:
  "VAR_FindByName example_server ''C'' = VAR_INVALID example_server
   \<and> JSON_Find node_unknown ''var'' = Some ''C''
   \<and> registration example_server False
       [(allocated, node_A), (allocated, node_unknown), (allocated, node_B)] example_state =
       (Some tagged_state, [VAR_Notify 1, VAR_Notify 0, VAR_Notify 2])
   \<and> pFileVars tagged_state = [entry_B, entry_unknown, entry_A]
   \<and> entry_unknown = \<lparr> hVar = 0, pFilename = Some ''/tmp/c.tpl'' \<rparr>
   \<and> registration example_server False [(allocated, node_A), (allocated, node_B)] example_state =
       (Some registered_state, [VAR_Notify 1, VAR_Notify 2])
   \<and> pFileVars registered_state = [entry_B, entry_A]
   \<and> tagged_state \<noteq> registered_state"
proof -
  have "pFileVars tagged_state \<noteq> pFileVars registered_state"
    by (simp add: example_simps)
  then have differ: "tagged_state \<noteq> registered_state"
    by auto
  have name: "JSON_Find node_unknown ''var'' = Some ''C''"
    by (simp add: JSON_Find_def node_unknown_def)
  from differ name show ?thesis
    by (simp add: example_registrations example_simps example_names_def entry_unknown_def)
qed

subsection \<open>Looking up a registered pair\<close>

text \<open>
  C6, as the code has it. Take a record with the name \<open>varname\<close> and the file
  \<open>filename\<close> that the pass reaches and \<open>SetupFileVar\<close> accepts, with \<open>strdup\<close>
  succeeding. If the name resolves to a valid handle and no other record of the
  configuration has a name that resolves to the same handle, then \<open>PrintFileVar\<close> on that
  handle returns \<open>EOK\<close> and opens exactly \<open>filename\<close>; when \<open>open\<close> answers a positive
  descriptor, the template engine renders that descriptor into the output descriptor and
  the descriptor is closed, and when \<open>open\<close> fails there is no further event. Unique names
  are not enough: the counterexample registers two different names that resolve to one
  handle, and a name that does not resolve.
\<close>

theorem registered_pair_is_looked_up:
  assumes reg: "registration vs stop (pre @ (al, pNode) # post) (initial_state srv v f)
                  = (Some st, ev)"
    and reach: "stop \<longrightarrow> (\<forall>r \<in> set pre. accepted r)"
    and name: "JSON_Find pNode ''var'' = Some varname"
    and path: "JSON_Find pNode ''file'' = Some filename"
    and mem: "malloc_ok al" "strdup_ok al"
    and valid: "VAR_FindByName vs varname \<noteq> VAR_INVALID vs"
    and unique: "\<forall>r \<in> set pre \<union> set post. \<forall>n. JSON_Find (snd r) ''var'' = Some n \<longrightarrow>
                   VAR_FindByName vs n \<noteq> VAR_FindByName vs varname"
    and opens: "opn (Some filename) \<noteq> 0"
  shows "rc (PrintFileVar vs opn (Some st) (VAR_FindByName vs varname) fd) = EOK
         \<and> io (PrintFileVar vs opn (Some st) (VAR_FindByName vs varname) fd) =
             open_RDONLY (Some filename) (opn (Some filename)) #
             (if opn (Some filename) > 0
              then [TEMPLATE_FileToFile (opn (Some filename)) fd, close_fd (opn (Some filename))]
              else [])"
proof -
  let ?e = "\<lparr> hVar = VAR_FindByName vs varname, pFilename = Some filename \<rparr>"
  from name path mem have e: "entry_of vs (al, pNode) = Some ?e"
    by (simp add: entry_of_def)
  have later: "\<forall>x \<in> set post. \<forall>e'. entry_of vs x = Some e' \<longrightarrow> hVar e' \<noteq> hVar ?e"
  proof (intro ballI allI impI)
    fix x e'
    assume x: "x \<in> set post" and "entry_of vs x = Some e'"
    from entry_of_SomeD [OF this(2)] obtain n
      where "JSON_Find (snd x) ''var'' = Some n" "hVar e' = VAR_FindByName vs n"
      by auto
    with unique x show "hVar e' \<noteq> hVar ?e" by auto
  qed
  from lookup_registered [OF reg reach e later]
  have "find (\<lambda>p. hVar p = VAR_FindByName vs varname) (pFileVars st) = Some ?e"
    by simp
  from PrintFileVar_found [OF valid this, of opn fd] show ?thesis by simp
qed

theorem registered_pair_is_looked_up_witness:
  "registration example_server True ([(allocated, node_A)] @ (allocated, node_B) # [])
     (initial_state 1 False (Some ''filevars.json'')) =
     (Some registered_state, [VAR_Notify 1, VAR_Notify 2])
   \<and> VAR_FindByName example_server ''B'' \<noteq> VAR_INVALID example_server
   \<and> example_files (Some ''/tmp/b.tpl'') \<noteq> 0
   \<and> rc (PrintFileVar example_server example_files (Some registered_state)
           (VAR_FindByName example_server ''B'') 5) = EOK
   \<and> io (PrintFileVar example_server example_files (Some registered_state)
           (VAR_FindByName example_server ''B'') 5) =
       [open_RDONLY (Some ''/tmp/b.tpl'') 8, TEMPLATE_FileToFile 8 5, close_fd 8]"
proof -
  have reg: "registration example_server True ([(allocated, node_A)] @ (allocated, node_B) # [])
     (initial_state 1 False (Some ''filevars.json'')) =
     (Some registered_state, [VAR_Notify 1, VAR_Notify 2])"
    using example_registrations(1) [of True] by (simp add: example_state_def)
  have reach: "True \<longrightarrow> (\<forall>r \<in> set [(allocated, node_A)]. accepted r)"
    by (simp add: accepted_def JSON_Find_def node_A_def allocated_def)
  have name: "JSON_Find node_B ''var'' = Some ''B''"
    and path: "JSON_Find node_B ''file'' = Some ''/tmp/b.tpl''"
    by (simp_all add: JSON_Find_def node_B_def)
  have mem: "malloc_ok allocated" "strdup_ok allocated"
    by (simp_all add: allocated_def)
  have valid: "VAR_FindByName example_server ''B'' \<noteq> VAR_INVALID example_server"
    by (simp add: example_simps example_names_def)
  have unique: "\<forall>r \<in> set [(allocated, node_A)] \<union> set [].
      \<forall>n. JSON_Find (snd r) ''var'' = Some n \<longrightarrow>
        VAR_FindByName example_server n \<noteq> VAR_FindByName example_server ''B''"
    by (simp add: JSON_Find_def node_A_def example_simps example_names_def)
  have opens: "example_files (Some ''/tmp/b.tpl'') \<noteq> 0"
    by (simp add: example_files_def)
  from registered_pair_is_looked_up [where opn = example_files and fd = 5,
      OF reg reach name path mem valid unique opens]
  show ?thesis using reg valid opens by (simp add: example_files_def)
qed

text \<open>
  The configuration registers \<open>A\<close> with \<open>/tmp/a.tpl\<close>, then \<open>A_alias\<close> (which resolves
  to the handle of \<open>A\<close>) with \<open>/tmp/b.tpl\<close>, then the unknown name \<open>C\<close>; every call of
  \<open>SetupFileVar\<close> returns \<open>EOK\<close>. A print of the handle of \<open>A\<close> renders \<open>/tmp/b.tpl\<close>,
  and a print of the handle of \<open>C\<close> is refused with \<open>EINVAL\<close>.
\<close>

theorem alias_and_unknown_name_lookup:
  "registration example_server False
     [(allocated, node_A), (allocated, node_alias), (allocated, node_unknown)] example_state =
     (Some alias_state, [VAR_Notify 1, VAR_Notify 1, VAR_Notify 0])
   \<and> fst (SetupFileVar example_server allocated node_A (Some example_state)) = EOK
   \<and> JSON_Find node_A ''file'' = Some ''/tmp/a.tpl''
   \<and> io (PrintFileVar example_server example_files (Some alias_state)
           (VAR_FindByName example_server ''A'') 5) =
       [open_RDONLY (Some ''/tmp/b.tpl'') 8, TEMPLATE_FileToFile 8 5, close_fd 8]
   \<and> fst (SetupFileVar example_server allocated node_unknown (Some example_state)) = EOK
   \<and> PrintFileVar example_server example_files (Some alias_state)
       (VAR_FindByName example_server ''C'') 5 = \<lparr> rc = EINVAL, scanned = 0, io = [] \<rparr>"
proof -
  have "JSON_Find node_A ''file'' = Some ''/tmp/a.tpl''"
    by (simp add: JSON_Find_def node_A_def)
  then show ?thesis
    by (simp add: example_registrations SetupFileVar_entry_of example_nodes PrintFileVar_def
        example_simps example_names_def example_files_def Let_def)
qed

subsection \<open>The same name registered twice\<close>

text \<open>
  C7. When a name is registered with \<open>file1\<close> and later again with \<open>file2\<close>, and no
  record after the second one resolves to the same handle, \<open>PrintFileVar\<close> on the handle
  opens \<open>file2\<close>: the entry linked last is at the head of the list and the loop stops at
  the first entry with the handle. This holds for every configuration around the two
  records, whatever else was registered before or between them.
\<close>

theorem last_registration_wins:
  assumes reg: "registration vs stop (pre @ (al1, pNode1) # mid @ (al2, pNode2) # post)
                  (initial_state srv v f) = (Some st, ev)"
    and reach: "stop \<longrightarrow> (\<forall>r \<in> set (pre @ (al1, pNode1) # mid). accepted r)"
    and first: "JSON_Find pNode1 ''var'' = Some varname" "JSON_Find pNode1 ''file'' = Some file1"
    and second: "JSON_Find pNode2 ''var'' = Some varname" "JSON_Find pNode2 ''file'' = Some file2"
    and mem: "malloc_ok al2" "strdup_ok al2"
    and valid: "VAR_FindByName vs varname \<noteq> VAR_INVALID vs"
    and last: "\<forall>r \<in> set post. \<forall>n. JSON_Find (snd r) ''var'' = Some n \<longrightarrow>
                 VAR_FindByName vs n \<noteq> VAR_FindByName vs varname"
  shows "rc (PrintFileVar vs opn (Some st) (VAR_FindByName vs varname) fd) = EOK
         \<and> io (PrintFileVar vs opn (Some st) (VAR_FindByName vs varname) fd) =
             open_RDONLY (Some file2) (opn (Some file2)) #
             (if opn (Some file2) > 0
              then [TEMPLATE_FileToFile (opn (Some file2)) fd, close_fd (opn (Some file2))]
              else [])"
proof -
  let ?e = "\<lparr> hVar = VAR_FindByName vs varname, pFilename = Some file2 \<rparr>"
  from second mem have e: "entry_of vs (al2, pNode2) = Some ?e"
    by (simp add: entry_of_def)
  have later: "\<forall>x \<in> set post. \<forall>e'. entry_of vs x = Some e' \<longrightarrow> hVar e' \<noteq> hVar ?e"
  proof (intro ballI allI impI)
    fix x e'
    assume x: "x \<in> set post" and "entry_of vs x = Some e'"
    from entry_of_SomeD [OF this(2)] obtain n
      where "JSON_Find (snd x) ''var'' = Some n" "hVar e' = VAR_FindByName vs n"
      by auto
    with last x show "hVar e' \<noteq> hVar ?e" by auto
  qed
  from reg have reg': "registration vs stop ((pre @ (al1, pNode1) # mid) @ (al2, pNode2) # post)
      (initial_state srv v f) = (Some st, ev)"
    by simp
  from lookup_registered [OF reg' reach e later]
  have "find (\<lambda>p. hVar p = VAR_FindByName vs varname) (pFileVars st) = Some ?e"
    by simp
  from PrintFileVar_found [OF valid this, of opn fd] show ?thesis by simp
qed

theorem last_registration_wins_witness:
  "registration example_server True
     ([] @ (allocated, node_A) # [(allocated, node_B)] @ (allocated, node_A2) # [])
     (initial_state 1 False (Some ''filevars.json'')) =
     (Some twice_state, [VAR_Notify 1, VAR_Notify 2, VAR_Notify 1])
   \<and> JSON_Find node_A ''var'' = Some ''A'' \<and> JSON_Find node_A ''file'' = Some ''/tmp/a.tpl''
   \<and> JSON_Find node_A2 ''var'' = Some ''A'' \<and> JSON_Find node_A2 ''file'' = Some ''/tmp/a2.tpl''
   \<and> rc (PrintFileVar example_server example_files (Some twice_state)
           (VAR_FindByName example_server ''A'') 5) = EOK
   \<and> io (PrintFileVar example_server example_files (Some twice_state)
           (VAR_FindByName example_server ''A'') 5) =
       [open_RDONLY (Some ''/tmp/a2.tpl'') 9, TEMPLATE_FileToFile 9 5, close_fd 9]"
proof -
  have reg: "registration example_server True
     ([] @ (allocated, node_A) # [(allocated, node_B)] @ (allocated, node_A2) # [])
     (initial_state 1 False (Some ''filevars.json'')) =
     (Some twice_state, [VAR_Notify 1, VAR_Notify 2, VAR_Notify 1])"
    using example_registrations(3) [of True] by (simp add: example_state_def)
  have reach: "True \<longrightarrow>
      (\<forall>r \<in> set ([] @ (allocated, node_A) # [(allocated, node_B)]). accepted r)"
    by (simp add: accepted_def JSON_Find_def node_A_def node_B_def allocated_def)
  have first: "JSON_Find node_A ''var'' = Some ''A''"
    "JSON_Find node_A ''file'' = Some ''/tmp/a.tpl''"
    by (simp_all add: JSON_Find_def node_A_def)
  have second: "JSON_Find node_A2 ''var'' = Some ''A''"
    "JSON_Find node_A2 ''file'' = Some ''/tmp/a2.tpl''"
    by (simp_all add: JSON_Find_def node_A2_def)
  have mem: "malloc_ok allocated" "strdup_ok allocated"
    by (simp_all add: allocated_def)
  have valid: "VAR_FindByName example_server ''A'' \<noteq> VAR_INVALID example_server"
    by (simp add: example_simps example_names_def)
  have last: "\<forall>r \<in> set []. \<forall>n. JSON_Find (snd r) ''var'' = Some n \<longrightarrow>
      VAR_FindByName example_server n \<noteq> VAR_FindByName example_server ''A''"
    by simp
  from last_registration_wins [OF reg reach first second mem valid last, of example_files 5]
  show ?thesis using reg first second by (simp add: example_files_def)
qed

subsection \<open>The descriptor of the template\<close>

text \<open>
  C10. The loop stops at the first entry with the handle, so at most one entry is
  rendered. The descriptor of the template is closed
  only when it is positive: \<open>PrintFileVar\<close> tests \<open>fd_in > 0\<close>, and \<open>open\<close> answers 0 when
  descriptor 0 is free. Here the entry of handle 1 is found at the second position, \<open>open\<close>
  answers 0, nothing is rendered and the descriptor is still open when the call returns
  \<open>EOK\<close>.
\<close>

theorem descriptor_zero_is_never_closed:
  "PrintFileVar example_server descriptor_zero (Some registered_state) 1 5 =
     \<lparr> rc = EOK, scanned = 2, io = [open_RDONLY (Some ''/tmp/a.tpl'') 0] \<rparr>
   \<and> opened (io (PrintFileVar example_server descriptor_zero (Some registered_state) 1 5)) = [0]
   \<and> closed (io (PrintFileVar example_server descriptor_zero (Some registered_state) 1 5)) = []"
  by (simp add: PrintFileVar_def example_simps descriptor_zero_def)

text \<open>
  X1. One call of \<open>PrintFileVar\<close> calls the template engine at most once and \<open>open\<close> at
  most once, and compares no entry after the first one with the handle. When \<open>open\<close>
  never answers 0 for a file of the list, the descriptors opened are the descriptors
  closed.
\<close>

theorem PrintFileVar_one_render_and_close:
  assumes "\<forall>p \<in> set (pFileVars st). opn (pFilename p) \<noteq> 0"
  shows "length (filter delivers (io (PrintFileVar vs opn (Some st) h fd))) \<le> 1
         \<and> length (opened (io (PrintFileVar vs opn (Some st) h fd))) \<le> 1
         \<and> opened (io (PrintFileVar vs opn (Some st) h fd)) =
             closed (io (PrintFileVar vs opn (Some st) h fd))
         \<and> scanned (PrintFileVar vs opn (Some st) h fd) \<le>
             Suc (length (takeWhile (\<lambda>p. hVar p \<noteq> h) (pFileVars st)))"
  using scan_counts [of opn h fd "pFileVars st"] scan_closes [OF assms, of h fd]
  by (simp add: PrintFileVar_def)

theorem PrintFileVar_one_render_and_close_witness:
  "opened (io (PrintFileVar example_server example_files (Some registered_state) 1 5)) = [7]
   \<and> closed (io (PrintFileVar example_server example_files (Some registered_state) 1 5)) = [7]
   \<and> scanned (PrintFileVar example_server example_files (Some registered_state) 1 5) = 2"
proof -
  have "\<forall>p \<in> set (pFileVars registered_state). example_files (pFilename p) \<noteq> 0"
    by (simp add: example_simps example_files_def)
  from PrintFileVar_one_render_and_close [OF this, of example_server 1 5]
  show ?thesis
    by (simp add: PrintFileVar_def example_simps example_files_def)
qed

end
